theory Spec2Isabelle
  imports Complex_Main
begin

section \<open>Values of the Python runtime\<close>

text \<open>
  The program is one Python class, \<open>Main\<close>, in \<open>gofile-downloader-folder.py\<close>. Its
  methods act on the local file system, on the network and on the terminal. The model
  passes one \<open>world\<close> value through every method and returns it updated, together with
  the way the method ended: a normal return, a raised exception, or the process exit of
  \<open>die\<close>.
\<close>

datatype pyerror =
    FileExistsError | FileNotFoundError | NotADirectoryError | IsADirectoryError
  | KeyError | TypeError | ValueError | AttributeError | ZeroDivisionError
  | RequestException | ShutilError

datatype outcome = Returned | Raised pyerror | SystemExit | OutOfFuel

text \<open>
  A Python float that came out of \<open>float(s)\<close>: a finite value (kept as an exact
  rational; rounding is not modelled), an infinity, or a NaN.
\<close>

datatype pyfloat = Finite rat | Infinite | NaN

section \<open>The file system\<close>

text \<open>
  A path is the list of its components below the file system root. A remote name is
  used as one component; names with a separator in them, and the names \<open>.\<close> and
  \<open>..\<close>, are outside the model. Symbolic links are not modelled.
\<close>

type_synonym path = "string list"
type_synonym bytes = "char list"

datatype entry = Dir | File bytes

section \<open>The network and the terminal\<close>

record request =
  rq_url :: string
  rq_headers :: "(string \<times> string) list"

text \<open>What \<open>get(url, stream=True)\<close> hands back: the status line, the headers, and the
  body as \<open>iter_content(chunk_size)\<close> will cut it. \<open>stream_fails\<close> says that the
  iterator raises after its last chunk (a connection lost in the middle).\<close>

record stream_response =
  status_code :: int
  resp_headers :: "string \<rightharpoonup> string"
  iter_content :: "nat \<Rightarrow> bytes list"
  stream_fails :: bool

datatype stream_result = ConnectionFailed | Response stream_response

text \<open>The JSON of a describe-content answer, with the keys the program reads.\<close>

record child_info =
  c_type :: string
  c_code :: string
  c_name :: string
  c_link :: string

record content =
  d_type :: string
  d_name :: string
  d_link :: string
  d_childrenIds :: "string list"
  d_children :: "string \<rightharpoonup> child_info"

record api_response =
  a_status :: string
  a_data :: content

text \<open>
  The lines written to standard output, one constructor for each message of the
  program. \<open>Blank\<close> is the line of spaces that wipes the previous message; its width
  and the transfer rate (which depends on the clock) are not modelled.
\<close>

datatype event =
    Skipping string
  | CouldntDownload string int
  | CouldntFindSize string int
  | Blank
  | Progress string nat string pyfloat
  | Done string nat string

text \<open>Everything the program takes from outside itself: the environment variable, the
  parsers \<open>int()\<close> and \<open>float()\<close> of the runtime (\<open>None\<close> is their
  \<open>ValueError\<close>), \<open>hashlib.sha256(...).hexdigest()\<close>, the size \<open>getsize\<close> reports
  for a directory, and the remote service.\<close>

record env =
  getenv_useragent :: "string option"
  py_int :: "string \<Rightarrow> int option"
  py_float :: "string \<Rightarrow> pyfloat option"
  sha256_hexdigest :: "string \<Rightarrow> string"
  dir_getsize :: nat
  api_get :: "request \<Rightarrow> api_response option"
  stream_get :: "request \<Rightarrow> stream_result"

record file_info =
  fi_path :: path
  fi_filename :: string
  fi_link :: string

record world =
  cwd :: path
  fs :: "path \<rightharpoonup> entry"
  net_log :: "request list"
  stdout :: "event list"
  stderr :: "string list"
  files_link_list :: "file_info list"

section \<open>Library calls\<close>

definition print_stdout :: "event \<Rightarrow> world \<Rightarrow> world" where
  "print_stdout e w = w\<lparr>stdout := stdout w @ [e]\<rparr>"

definition send :: "request \<Rightarrow> world \<Rightarrow> world" where
  "send rq w = w\<lparr>net_log := net_log w @ [rq]\<rparr>"

definition path_join :: "path \<Rightarrow> string \<Rightarrow> path" where
  "path_join p name = p @ [name]"

definition path_exists :: "world \<Rightarrow> path \<Rightarrow> bool" where
  "path_exists w p = (case fs w p of None \<Rightarrow> False | Some e \<Rightarrow> True)"

definition path_isfile :: "world \<Rightarrow> path \<Rightarrow> bool" where
  "path_isfile w p = (case fs w p of Some (File b) \<Rightarrow> True | Some Dir \<Rightarrow> False | None \<Rightarrow> False)"

definition path_getsize :: "env \<Rightarrow> world \<Rightarrow> path \<Rightarrow> pyerror + nat" where
  "path_getsize ev w p =
     (case fs w p of
        None \<Rightarrow>
          (case fs w (butlast p) of
             None \<Rightarrow> Inl FileNotFoundError
           | Some (File b) \<Rightarrow> Inl NotADirectoryError
           | Some Dir \<Rightarrow> Inl FileNotFoundError)
      | Some Dir \<Rightarrow> Inr (dir_getsize ev)
      | Some (File b) \<Rightarrow> Inr (length b))"

definition os_mkdir :: "world \<Rightarrow> path \<Rightarrow> pyerror + world" where
  "os_mkdir w p =
     (case fs w p of
        Some e \<Rightarrow> Inl FileExistsError
      | None \<Rightarrow>
          (case fs w (butlast p) of
             None \<Rightarrow> Inl FileNotFoundError
           | Some (File b) \<Rightarrow> Inl NotADirectoryError
           | Some Dir \<Rightarrow> Inr (w\<lparr>fs := (fs w)(p \<mapsto> Dir)\<rparr>)))"

definition os_chdir :: "world \<Rightarrow> string \<Rightarrow> pyerror + world" where
  "os_chdir w name =
     (case fs w (path_join (cwd w) name) of
        None \<Rightarrow> Inl FileNotFoundError
      | Some (File b) \<Rightarrow> Inl NotADirectoryError
      | Some Dir \<Rightarrow> Inr (w\<lparr>cwd := path_join (cwd w) name\<rparr>))"

definition os_chdir_pardir :: "world \<Rightarrow> world" where
  "os_chdir_pardir w = w\<lparr>cwd := butlast (cwd w)\<rparr>"

text \<open>\<open>open(filename, 'ab')\<close>: the file is created empty when it is missing.\<close>

definition open_append :: "world \<Rightarrow> path \<Rightarrow> pyerror + world" where
  "open_append w p =
     (case fs w p of
        Some Dir \<Rightarrow> Inl IsADirectoryError
      | Some (File b) \<Rightarrow> Inr w
      | None \<Rightarrow>
          (case fs w (butlast p) of
             None \<Rightarrow> Inl FileNotFoundError
           | Some (File b) \<Rightarrow> Inl NotADirectoryError
           | Some Dir \<Rightarrow> Inr (w\<lparr>fs := (fs w)(p \<mapsto> File [])\<rparr>)))"

text \<open>\<open>handler.write(chunk)\<close> on a handle opened for appending. The bytes are taken
  to reach the file at once (the buffer of the handle is not modelled).\<close>

definition handler_write :: "path \<Rightarrow> bytes \<Rightarrow> world \<Rightarrow> world" where
  "handler_write p chunk w =
     (case fs w p of
        Some (File b) \<Rightarrow> w\<lparr>fs := (fs w)(p \<mapsto> File (b @ chunk))\<rparr>
      | Some Dir \<Rightarrow> w
      | None \<Rightarrow> w)"

text \<open>\<open>os.rename\<close> of a directory carries everything below it along.\<close>

definition is_prefix :: "path \<Rightarrow> path \<Rightarrow> bool" where
  "is_prefix p q = (take (length p) q = p)"

definition rename_tree :: "path \<Rightarrow> path \<Rightarrow> (path \<rightharpoonup> entry) \<Rightarrow> (path \<rightharpoonup> entry)" where
  "rename_tree src dst f =
     (\<lambda>p. if is_prefix dst p then f (src @ drop (length dst) p)
          else if is_prefix src p then None
          else f p)"

definition os_rename :: "world \<Rightarrow> path \<Rightarrow> path \<Rightarrow> pyerror + world" where
  "os_rename w src dst =
     (case fs w src of
        None \<Rightarrow> Inl FileNotFoundError
      | Some (File b) \<Rightarrow> Inr (w\<lparr>fs := (fs w)(dst \<mapsto> File b, src := None)\<rparr>)
      | Some Dir \<Rightarrow>
          (case fs w dst of
             Some (File b) \<Rightarrow> Inl FileExistsError
           | Some Dir \<Rightarrow> Inr (w\<lparr>fs := rename_tree src dst (fs w)\<rparr>)
           | None \<Rightarrow> Inr (w\<lparr>fs := rename_tree src dst (fs w)\<rparr>)))"

text \<open>\<open>shutil.move(src, dst)\<close>: into \<open>dst\<close> when \<open>dst\<close> is a directory, onto it
  otherwise.\<close>

definition shutil_move :: "world \<Rightarrow> path \<Rightarrow> path \<Rightarrow> pyerror + world" where
  "shutil_move w src dst =
     (case fs w dst of
        Some Dir \<Rightarrow>
          (if src = [] then Inl ShutilError
           else if path_exists w (path_join dst (last src)) then Inl ShutilError
           else os_rename w src (path_join dst (last src)))
      | Some (File b) \<Rightarrow> os_rename w src dst
      | None \<Rightarrow> os_rename w src dst)"

text \<open>\<open>str(n)\<close> for a size.\<close>

fun str_nat :: "nat \<Rightarrow> string" where
  "str_nat n =
     (if n < 10 then [''0123456789'' ! n]
      else str_nat (n div 10) @ [''0123456789'' ! (n mod 10)])"

text \<open>\<open>s.split("/")\<close> and its last element.\<close>

fun split_slash :: "string \<Rightarrow> string list" where
  "split_slash [] = [[]]"
| "split_slash (c # cs) =
     (if c = CHR ''/'' then [] # split_slash cs
      else (case split_slash cs of
              [] \<Rightarrow> [[c]]
            | x # xs \<Rightarrow> (c # x) # xs))"

definition last_segment :: "string \<Rightarrow> string" where
  "last_segment s = last (split_slash s)"

definition user_agent :: "env \<Rightarrow> string" where
  "user_agent ev =
     (case getenv_useragent ev of
        None \<Rightarrow> ''Mozilla/5.0''
      | Some s \<Rightarrow> if s = [] then ''Mozilla/5.0'' else s)"

section \<open>The fetcher: \<open>Main._downloadContent\<close>\<close>

definition part_of :: "path \<Rightarrow> path" where
  "part_of p = (if p = [] then [''.part''] else butlast p @ [last p @ ''.part''])"

definition download_headers :: "env \<Rightarrow> string \<Rightarrow> string \<Rightarrow> (string \<times> string) list" where
  "download_headers ev token url =
     [(''Cookie'', ''accountToken='' @ token),
      (''Accept-Encoding'', ''gzip, deflate, br''),
      (''User-Agent'', user_agent ev),
      (''Accept'', ''*/*''),
      (''Referer'', url @ (if url \<noteq> [] \<and> last url = CHR ''/'' then [] else ''/'')),
      (''Origin'', url),
      (''Connection'', ''keep-alive''),
      (''Sec-Fetch-Dest'', ''empty''),
      (''Sec-Fetch-Mode'', ''cors''),
      (''Sec-Fetch-Site'', ''same-site''),
      (''Pragma'', ''no-cache''),
      (''Cache-Control'', ''no-cache'')]"

text \<open>Lines 164 to 168: the resume offset and the headers of the request.\<close>

definition part_size_of :: "world \<Rightarrow> path \<Rightarrow> nat" where
  "part_size_of w filename =
     (case fs w filename of
        Some (File b) \<Rightarrow> length b
      | Some Dir \<Rightarrow> 0
      | None \<Rightarrow> 0)"

definition resume_headers ::
  "world \<Rightarrow> path \<Rightarrow> (string \<times> string) list \<Rightarrow> (string \<times> string) list" where
  "resume_headers w filename headers =
     (if path_isfile w filename
      then headers @ [(''Range'', ''bytes='' @ str_nat (part_size_of w filename) @ ''-'')]
      else headers)"

definition download_request :: "env \<Rightarrow> file_info \<Rightarrow> string \<Rightarrow> world \<Rightarrow> request" where
  "download_request ev file_info token w =
     \<lparr>rq_url = fi_link file_info,
      rq_headers = resume_headers w (part_of (fi_path file_info))
                     (download_headers ev token (fi_link file_info))\<rparr>"

text \<open>Lines 175 to 177.\<close>

definition status_abort :: "nat \<Rightarrow> int \<Rightarrow> bool" where
  "status_abort part_size sc =
     (sc \<in> {403, 404, 405, 500}
      \<or> (part_size = 0 \<and> sc \<noteq> 200)
      \<or> (0 < part_size \<and> sc \<noteq> 206))"

text \<open>Lines 187 to 189. \<open>headers.get\<close> gives \<open>None\<close> for a missing header, and
  \<open>None.split\<close> raises \<open>AttributeError\<close>.\<close>

definition read_size :: "stream_response \<Rightarrow> nat \<Rightarrow> pyerror + string option" where
  "read_size r part_size =
     (if part_size = 0 then Inr (resp_headers r ''Content-Length'')
      else (case resp_headers r ''Content-Range'' of
              None \<Rightarrow> Inl AttributeError
            | Some v \<Rightarrow> Inr (Some (last_segment v))))"

text \<open>Line 206: \<open>(part_size + i * len(chunk)) / total_size * 100\<close>.\<close>

definition progress_of :: "nat \<Rightarrow> pyfloat \<Rightarrow> pyerror + pyfloat" where
  "progress_of transferred total_size =
     (case total_size of
        Finite t \<Rightarrow> if t = 0 then Inl ZeroDivisionError else Inr (Finite (of_nat transferred / t * 100))
      | Infinite \<Rightarrow> Inr (Finite 0)
      | NaN \<Rightarrow> Inr NaN)"

text \<open>Lines 205 to 229: the loop over the chunks, \<open>i\<close> being the index \<open>enumerate\<close>
  gives the chunk at the head of the list.\<close>

fun stream_loop ::
  "string \<Rightarrow> path \<Rightarrow> nat \<Rightarrow> string \<Rightarrow> pyfloat \<Rightarrow> nat \<Rightarrow> bytes list \<Rightarrow> world
     \<Rightarrow> pyerror option \<times> world" where
  "stream_loop fname filename part_size has_size total_size i [] w = (None, w)"
| "stream_loop fname filename part_size has_size total_size i (chunk # rest) w =
     (case progress_of (part_size + i * length chunk) total_size of
        Inl e \<Rightarrow> (Some e, w)
      | Inr progress \<Rightarrow>
          stream_loop fname filename part_size has_size total_size (Suc i) rest
            (print_stdout (Progress fname (part_size + i * length chunk) has_size progress)
              (print_stdout Blank
                (handler_write filename chunk w))))"

text \<open>Lines 173 to 229: the body of the \<open>try\<close>. It gives the way it ended, the value
  of \<open>has_size\<close> at that point, and the world.\<close>

definition try_block ::
  "env \<Rightarrow> file_info \<Rightarrow> request \<Rightarrow> nat \<Rightarrow> nat \<Rightarrow> world \<Rightarrow> outcome \<times> string option \<times> world" where
  "try_block ev file_info rq part_size chunk_size w =
     (case stream_get ev rq of
        ConnectionFailed \<Rightarrow> (Raised RequestException, None, send rq w)
      | Response r \<Rightarrow>
          if status_abort part_size (status_code r)
          then (Returned, None,
                print_stdout (CouldntDownload (rq_url rq) (status_code r)) (send rq w))
          else
            (case read_size r part_size of
               Inl e \<Rightarrow> (Raised e, None, send rq w)
             | Inr None \<Rightarrow>
                 (Returned, None,
                  print_stdout (CouldntFindSize (rq_url rq) (status_code r)) (send rq w))
             | Inr (Some has_size) \<Rightarrow>
                 if has_size = []
                 then (Returned, Some has_size,
                       print_stdout (CouldntFindSize (rq_url rq) (status_code r)) (send rq w))
                 else
                   (case open_append (send rq w) (part_of (fi_path file_info)) of
                      Inl e \<Rightarrow> (Raised e, Some has_size, send rq w)
                    | Inr w1 \<Rightarrow>
                        (case py_float ev has_size of
                           None \<Rightarrow> (Raised ValueError, Some has_size, w1)
                         | Some total_size \<Rightarrow>
                             (case stream_loop (fi_filename file_info)
                                     (part_of (fi_path file_info)) part_size has_size total_size 0
                                     (iter_content r chunk_size) w1 of
                                (Some e, w2) \<Rightarrow> (Raised e, Some has_size, w2)
                              | (None, w2) \<Rightarrow>
                                  if stream_fails r
                                  then (Raised RequestException, Some has_size, w2)
                                  else (Returned, Some has_size, w2))))))"

text \<open>Lines 230 to 237: the \<open>finally\<close>. An exception raised here replaces the way the
  body ended; otherwise the body's return or exception goes on.\<close>

definition finally_block ::
  "env \<Rightarrow> file_info \<Rightarrow> string option \<Rightarrow> outcome \<Rightarrow> world \<Rightarrow> outcome \<times> world" where
  "finally_block ev file_info has_size out w =
     (case path_getsize ev w (part_of (fi_path file_info)) of
        Inl e \<Rightarrow> (Raised e, w)
      | Inr sz \<Rightarrow>
          (case has_size of
             None \<Rightarrow> (Raised TypeError, w)
           | Some s \<Rightarrow>
               (case py_int ev s of
                  None \<Rightarrow> (Raised ValueError, w)
                | Some n \<Rightarrow>
                    if int sz = n
                    then
                      (case shutil_move
                              (print_stdout (Done (fi_filename file_info) sz s)
                                (print_stdout Blank w))
                              (part_of (fi_path file_info)) (fi_path file_info) of
                         Inl e \<Rightarrow>
                           (Raised e,
                            print_stdout (Done (fi_filename file_info) sz s)
                              (print_stdout Blank w))
                       | Inr w1 \<Rightarrow> (out, w1))
                    else (out, w))))"

text \<open>Lines 140 to 144.\<close>

definition already_present :: "env \<Rightarrow> world \<Rightarrow> path \<Rightarrow> bool" where
  "already_present ev w p =
     (path_exists w p \<and>
      (case path_getsize ev w p of Inl e \<Rightarrow> False | Inr n \<Rightarrow> 0 < n))"

definition downloadContent ::
  "env \<Rightarrow> file_info \<Rightarrow> string \<Rightarrow> nat \<Rightarrow> world \<Rightarrow> outcome \<times> world" where
  "downloadContent ev file_info token chunk_size w =
     (if already_present ev w (fi_path file_info)
      then (Returned, print_stdout (Skipping (fi_filename file_info)) w)
      else
        (case try_block ev file_info (download_request ev file_info token w)
                (part_size_of w (part_of (fi_path file_info))) chunk_size w of
           (out, has_size, w1) \<Rightarrow> finally_block ev file_info has_size out w1))"

text \<open>
  Lines 74 to 85: \<open>_threadedDownloads\<close>. The pool runs the submitted tasks on its
  worker threads; the model runs them one after the other, in the order of submission.
  Nothing reads the future \<open>submit\<close> returns, so the way a task ended, an exception
  included, is dropped.
\<close>

fun submit_all :: "env \<Rightarrow> string \<Rightarrow> file_info list \<Rightarrow> world \<Rightarrow> world" where
  "submit_all ev token [] w = w"
| "submit_all ev token (item # items) w =
     submit_all ev token items (snd (downloadContent ev item token 16384 w))"

definition threadedDownloads :: "env \<Rightarrow> path \<Rightarrow> string \<Rightarrow> world \<Rightarrow> outcome \<times> world" where
  "threadedDownloads ev root_dir token w =
     (case fs w root_dir of
        None \<Rightarrow> (Raised FileNotFoundError, w)
      | Some (File b) \<Rightarrow> (Raised NotADirectoryError, w)
      | Some Dir \<Rightarrow>
          (Returned, submit_all ev token (files_link_list w) (w\<lparr>cwd := root_dir\<rparr>)))"

section \<open>The resolver: \<open>Main._parseLinks\<close>\<close>

text \<open>Line 63 of \<open>Main.__init__\<close>: what is kept of the password.\<close>

definition hash_password :: "env \<Rightarrow> string option \<Rightarrow> string option" where
  "hash_password ev password =
     (case password of
        None \<Rightarrow> None
      | Some p \<Rightarrow> if p = [] then None else Some (sha256_hexdigest ev p))"

definition contents_url :: "string \<Rightarrow> string option \<Rightarrow> string" where
  "contents_url content_id password =
     ''https://api.gofile.io/contents/'' @ content_id @ ''?wt=4fd6sg89d7s6&cache=true''
       @ (case password of
            None \<Rightarrow> []
          | Some p \<Rightarrow> if p = [] then [] else ''&password='' @ p)"

definition api_headers :: "env \<Rightarrow> string \<Rightarrow> (string \<times> string) list" where
  "api_headers ev token =
     [(''User-Agent'', user_agent ev),
      (''Accept-Encoding'', ''gzip, deflate, br''),
      (''Accept'', ''*/*''),
      (''Connection'', ''keep-alive''),
      (''Authorization'', ''Bearer'' @ '' '' @ token)]"

definition describe_request :: "env \<Rightarrow> string \<Rightarrow> string \<Rightarrow> string option \<Rightarrow> request" where
  "describe_request ev content_id token password =
     \<lparr>rq_url = contents_url content_id password, rq_headers = api_headers ev token\<rparr>"

definition die :: "string \<Rightarrow> world \<Rightarrow> world" where
  "die msg w = w\<lparr>stderr := stderr w @ [msg]\<rparr>"

text \<open>Lines 88 to 103: \<open>_createDir\<close>.\<close>

definition createDir :: "string \<Rightarrow> world \<Rightarrow> pyerror + world" where
  "createDir dirname w =
     (case os_mkdir w (path_join (cwd w) dirname) of
        Inl e \<Rightarrow> if e = FileExistsError then Inr w else Inl e
      | Inr w1 \<Rightarrow> Inr w1)"

text \<open>Lines 240 to 256: \<open>_cacheLink\<close>.\<close>

definition cacheLink :: "path \<Rightarrow> string \<Rightarrow> string \<Rightarrow> world \<Rightarrow> world" where
  "cacheLink filepath filename link w =
     w\<lparr>files_link_list := files_link_list w @
         [\<lparr>fi_path = path_join filepath filename, fi_filename = filename, fi_link = link\<rparr>]\<rparr>"

text \<open>
  Lines 259 to 305. The first argument is fuel: the number of nested calls the stack
  still allows. \<open>children_loop\<close> is the \<open>for\<close> loop of lines 295 to 301.
\<close>

fun parseLinks ::
  "nat \<Rightarrow> env \<Rightarrow> string \<Rightarrow> string \<Rightarrow> string option \<Rightarrow> world \<Rightarrow> outcome \<times> world"
and children_loop ::
  "nat \<Rightarrow> env \<Rightarrow> string \<Rightarrow> string option \<Rightarrow> content \<Rightarrow> string list \<Rightarrow> world
     \<Rightarrow> outcome \<times> world" where
  "parseLinks 0 ev content_id token password w = (OutOfFuel, w)"
| "parseLinks (Suc k) ev content_id token password w =
     (case api_get ev (describe_request ev content_id token password) of
        None \<Rightarrow>
          (Raised RequestException, send (describe_request ev content_id token password) w)
      | Some response \<Rightarrow>
          if a_status response \<noteq> ''ok''
          then (SystemExit,
                die (''Failed to get a link as response from the ''
                       @ contents_url content_id password)
                  (send (describe_request ev content_id token password) w))
          else if d_type (a_data response) = ''folder''
          then
            (case createDir (d_name (a_data response))
                    (send (describe_request ev content_id token password) w) of
               Inl e \<Rightarrow> (Raised e, send (describe_request ev content_id token password) w)
             | Inr w1 \<Rightarrow>
                 (case os_chdir w1 (d_name (a_data response)) of
                    Inl e \<Rightarrow> (Raised e, w1)
                  | Inr w2 \<Rightarrow>
                      (case children_loop k ev token password (a_data response)
                              (d_childrenIds (a_data response)) w2 of
                         (Returned, w3) \<Rightarrow> (Returned, os_chdir_pardir w3)
                       | (Raised e, w3) \<Rightarrow> (Raised e, w3)
                       | (SystemExit, w3) \<Rightarrow> (SystemExit, w3)
                       | (OutOfFuel, w3) \<Rightarrow> (OutOfFuel, w3))))
          else
            (Returned,
             cacheLink (cwd w) (d_name (a_data response)) (d_link (a_data response))
               (send (describe_request ev content_id token password) w)))"
| "children_loop k ev token password data [] w = (Returned, w)"
| "children_loop k ev token password data (child_id # rest) w =
     (case d_children data child_id of
        None \<Rightarrow> (Raised KeyError, w)
      | Some child \<Rightarrow>
          if c_type child = ''folder''
          then
            (case parseLinks k ev (c_code child) token password w of
               (Returned, w1) \<Rightarrow> children_loop k ev token password data rest w1
             | (Raised e, w1) \<Rightarrow> (Raised e, w1)
             | (SystemExit, w1) \<Rightarrow> (SystemExit, w1)
             | (OutOfFuel, w1) \<Rightarrow> (OutOfFuel, w1))
          else
            children_loop k ev token password data rest
              (cacheLink (cwd w) (c_name child) (c_link child) w))"

section \<open>The remote content tree\<close>

text \<open>
  A content node as the design describes it: a file with its name and link, or a folder
  with its name and its children in the order of the remote listing.
\<close>

datatype node = FileNode string string | FolderNode string "node list"

text \<open>The depth-first pre-order traversal of a tree placed in the directory \<open>dir\<close>:
  the files met, and the folders met.\<close>

fun manifest_of :: "path \<Rightarrow> node \<Rightarrow> file_info list" where
  "manifest_of dir (FileNode name link) =
     [\<lparr>fi_path = dir @ [name], fi_filename = name, fi_link = link\<rparr>]"
| "manifest_of dir (FolderNode name children) =
     concat (map (manifest_of (dir @ [name])) children)"

fun folders_of :: "path \<Rightarrow> node \<Rightarrow> path list" where
  "folders_of dir (FileNode name link) = []"
| "folders_of dir (FolderNode name children) =
     (dir @ [name]) # concat (map (folders_of (dir @ [name])) children)"

fun depth :: "node \<Rightarrow> nat" where
  "depth (FileNode name link) = 1"
| "depth (FolderNode name children) = Suc (foldr max (map depth children) 0)"

definition plain_name :: "string \<Rightarrow> bool" where
  "plain_name name =
     (name \<noteq> [] \<and> name \<noteq> ''.'' \<and> name \<noteq> ''..'' \<and> CHR ''/'' \<notin> set name)"

fun plain_names :: "node \<Rightarrow> bool" where
  "plain_names (FileNode name link) = plain_name name"
| "plain_names (FolderNode name children) =
     (plain_name name \<and> list_all plain_names children)"

text \<open>
  The service holds the tree \<open>t\<close> under the content id: the answer for the id
  describes the root of \<open>t\<close>, a folder's listing describes its children in order, and
  the code of a child folder is an id under which the service holds that child.
\<close>

fun serves :: "env \<Rightarrow> string \<Rightarrow> string option \<Rightarrow> string \<Rightarrow> node \<Rightarrow> bool"
and serves_children ::
  "env \<Rightarrow> string \<Rightarrow> string option \<Rightarrow> content \<Rightarrow> string list \<Rightarrow> node list \<Rightarrow> bool" where
  "serves ev token password content_id (FileNode name link) =
     (case api_get ev (describe_request ev content_id token password) of
        None \<Rightarrow> False
      | Some r \<Rightarrow>
          a_status r = ''ok'' \<and> d_type (a_data r) \<noteq> ''folder''
          \<and> d_name (a_data r) = name \<and> d_link (a_data r) = link)"
| "serves ev token password content_id (FolderNode name children) =
     (case api_get ev (describe_request ev content_id token password) of
        None \<Rightarrow> False
      | Some r \<Rightarrow>
          a_status r = ''ok'' \<and> d_type (a_data r) = ''folder''
          \<and> d_name (a_data r) = name
          \<and> serves_children ev token password (a_data r) (d_childrenIds (a_data r)) children)"
| "serves_children ev token password data [] [] = True"
| "serves_children ev token password data (child_id # ids) (FileNode name link # children) =
     (case d_children data child_id of
        None \<Rightarrow> False
      | Some child \<Rightarrow>
          c_type child \<noteq> ''folder'' \<and> c_name child = name \<and> c_link child = link
          \<and> serves_children ev token password data ids children)"
| "serves_children ev token password data (child_id # ids) (FolderNode name sub # children) =
     (case d_children data child_id of
        None \<Rightarrow> False
      | Some child \<Rightarrow>
          c_type child = ''folder''
          \<and> serves ev token password (c_code child) (FolderNode name sub)
          \<and> serves_children ev token password data ids children)"
| "serves_children ev token password data [] (c # children) = False"
| "serves_children ev token password data (child_id # ids) [] = False"

definition add_dirs :: "path list \<Rightarrow> (path \<rightharpoonup> entry) \<Rightarrow> (path \<rightharpoonup> entry)" where
  "add_dirs ps f = (\<lambda>p. if p \<in> set ps then Some Dir else f p)"

text \<open>
  What resolving the trees \<open>ts\<close>, placed side by side in the directory \<open>dir\<close>,
  makes of a world: their files are appended to the manifest in traversal order, their
  folders are directories, and the working directory and the terminal are as before.
\<close>

definition resolved :: "path \<Rightarrow> node list \<Rightarrow> world \<Rightarrow> world \<Rightarrow> bool" where
  "resolved dir ts w w' =
     (files_link_list w' = files_link_list w @ concat (map (manifest_of dir) ts)
      \<and> fs w' = add_dirs (concat (map (folders_of dir) ts)) (fs w)
      \<and> cwd w' = cwd w \<and> stdout w' = stdout w \<and> stderr w' = stderr w)"

section \<open>Observations\<close>




text \<open>The byte length of the regular file at a path, if there is one.\<close>

definition marker_size :: "world \<Rightarrow> path \<Rightarrow> nat option" where
  "marker_size w p =
     (case fs w p of
        Some (File b) \<Rightarrow> Some (length b)
      | Some Dir \<Rightarrow> None
      | None \<Rightarrow> None)"

section \<open>Concrete runs\<close>

text \<open>
  The runs used below to evaluate the program. Their runtime reads a size written in
  decimal digits, which is where \<open>int()\<close> and \<open>float()\<close> agree with it (the
  empty string is refused, as both refuse it); the digest function gives the SHA-256 of
  the word \<open>password\<close> and is applied to that word only.
\<close>

definition digit_val :: "char \<Rightarrow> nat option" where
  "digit_val =
     map_of
       [(CHR ''0'', 0), (CHR ''1'', 1), (CHR ''2'', 2), (CHR ''3'', 3), (CHR ''4'', 4),
        (CHR ''5'', 5), (CHR ''6'', 6), (CHR ''7'', 7), (CHR ''8'', 8), (CHR ''9'', 9)]"

fun dec_acc :: "nat \<Rightarrow> string \<Rightarrow> nat option" where
  "dec_acc a [] = Some a"
| "dec_acc a (c # cs) =
     (case digit_val c of
        None \<Rightarrow> None
      | Some d \<Rightarrow> dec_acc (10 * a + d) cs)"

definition dec_nat :: "string \<Rightarrow> nat option" where
  "dec_nat s = (if s = [] then None else dec_acc 0 s)"

definition demo_env :: "(request \<Rightarrow> api_response option) \<Rightarrow> stream_result \<Rightarrow> env" where
  "demo_env api answer =
     \<lparr>getenv_useragent = None,
      py_int = (\<lambda>s. map_option int (dec_nat s)),
      py_float = (\<lambda>s. map_option (\<lambda>n. Finite (of_nat n)) (dec_nat s)),
      sha256_hexdigest =
        (\<lambda>s. ''5e884898da28047151d0e56f8dc6292773603d0d6aabbdd62a11ef721d1542d8''),
      dir_getsize = 4096,
      api_get = api,
      stream_get = (\<lambda>rq. answer)\<rparr>"

definition demo_file :: file_info where
  "demo_file =
     \<lparr>fi_path = [''dl'', ''b.txt''], fi_filename = ''b.txt'',
      fi_link = ''https://store1.gofile.io/download/b.txt''\<rparr>"

definition demo_world :: "(path \<rightharpoonup> entry) \<Rightarrow> world" where
  "demo_world f =
     \<lparr>cwd = [''dl''], fs = f, net_log = [], stdout = [], stderr = [], files_link_list = []\<rparr>"

definition demo_response :: "int \<Rightarrow> (string \<rightharpoonup> string) \<Rightarrow> bytes list \<Rightarrow> stream_result" where
  "demo_response sc hs chunks =
     Response \<lparr>status_code = sc, resp_headers = hs, iter_content = (\<lambda>n. chunks),
               stream_fails = False\<rparr>"

text \<open>The download directory, empty; with a finished \<open>b.txt\<close>; with an empty marker;
  with a marker of five bytes.\<close>

definition fs_fresh :: "path \<rightharpoonup> entry" where
  "fs_fresh = [[] \<mapsto> Dir, [''dl''] \<mapsto> Dir]"

definition fs_finished :: "path \<rightharpoonup> entry" where
  "fs_finished = [[] \<mapsto> Dir, [''dl''] \<mapsto> Dir, [''dl'', ''b.txt''] \<mapsto> File ''hello'']"

definition fs_empty_marker :: "path \<rightharpoonup> entry" where
  "fs_empty_marker = [[] \<mapsto> Dir, [''dl''] \<mapsto> Dir, [''dl'', ''b.txt.part''] \<mapsto> File []]"

definition fs_marker5 :: "path \<rightharpoonup> entry" where
  "fs_marker5 = [[] \<mapsto> Dir, [''dl''] \<mapsto> Dir, [''dl'', ''b.txt.part''] \<mapsto> File ''hello'']"

definition no_api :: "request \<Rightarrow> api_response option" where
  "no_api rq = None"

text \<open>Answers of the file server: the whole body of four bytes in two chunks; a body
  longer than the declared three bytes; a range request honoured from byte 0; a partial
  answer without its \<open>Content-Range\<close> header; a refusal.\<close>

definition complete_env :: env where
  "complete_env =
     demo_env no_api (demo_response 200 [''Content-Length'' \<mapsto> ''4''] [''abc'', ''d''])"

definition oversized_env :: env where
  "oversized_env =
     demo_env no_api (demo_response 200 [''Content-Length'' \<mapsto> ''3''] [''abcd''])"

definition honoured_range_env :: env where
  "honoured_range_env =
     demo_env no_api (demo_response 206 [''Content-Range'' \<mapsto> ''bytes 0-3/4''] [''abcd''])"

definition no_content_range_env :: env where
  "no_content_range_env = demo_env no_api (demo_response 206 Map.empty [''world''])"




text \<open>The tree \<open>root/{a.txt, sub/{b.txt}}\<close> and a service that holds it under the
  id \<open>root\<close>, for requests made with the given password parameter.\<close>

definition demo_tree :: node where
  "demo_tree =
     FolderNode ''root''
       [FileNode ''a.txt'' ''https://store1.gofile.io/download/a.txt'',
        FolderNode ''sub'' [FileNode ''b.txt'' ''https://store1.gofile.io/download/b.txt'']]"

definition demo_api :: "string option \<Rightarrow> request \<Rightarrow> api_response option" where
  "demo_api password rq =
     (if rq_url rq = contents_url ''root'' password
      then Some \<lparr>a_status = ''ok'',
                 a_data = \<lparr>d_type = ''folder'', d_name = ''root'', d_link = [],
                   d_childrenIds = [''id-a'', ''id-sub''],
                   d_children =
                     [''id-a'' \<mapsto> \<lparr>c_type = ''file'', c_code = ''a'', c_name = ''a.txt'',
                                   c_link = ''https://store1.gofile.io/download/a.txt''\<rparr>,
                      ''id-sub'' \<mapsto> \<lparr>c_type = ''folder'', c_code = ''sub'', c_name = ''sub'',
                                     c_link = []\<rparr>]\<rparr>\<rparr>
      else if rq_url rq = contents_url ''sub'' password
      then Some \<lparr>a_status = ''ok'',
                 a_data = \<lparr>d_type = ''folder'', d_name = ''sub'', d_link = [],
                   d_childrenIds = [''id-b''],
                   d_children =
                     [''id-b'' \<mapsto> \<lparr>c_type = ''file'', c_code = ''b'', c_name = ''b.txt'',
                                   c_link = ''https://store1.gofile.io/download/b.txt''\<rparr>]\<rparr>\<rparr>
      else Some \<lparr>a_status = ''error-notFound'',
                 a_data = \<lparr>d_type = [], d_name = [], d_link = [], d_childrenIds = [],
                            d_children = Map.empty\<rparr>\<rparr>)"

definition resolver_env :: "string option \<Rightarrow> env" where
  "resolver_env password = demo_env (demo_api password) ConnectionFailed"

text \<open>The same service, asked with the digest of a password.\<close>

definition password_env :: env where
  "password_env =
     resolver_env (Some ''5e884898da28047151d0e56f8dc6292773603d0d6aabbdd62a11ef721d1542d8'')"

section \<open>Facts about the fetcher\<close>

lemmas run_defs =
  downloadContent_def try_block_def finally_block_def already_present_def
  path_exists_def path_getsize_def path_isfile_def part_size_of_def part_of_def
  download_request_def resume_headers_def download_headers_def user_agent_def
  status_abort_def read_size_def progress_of_def open_append_def handler_write_def
  shutil_move_def os_rename_def print_stdout_def send_def marker_size_def last_segment_def
  demo_env_def demo_file_def demo_world_def demo_response_def no_api_def
  fs_fresh_def fs_finished_def fs_empty_marker_def fs_marker5_def dec_nat_def digit_val_def

lemma part_of_neq: "part_of p \<noteq> p"
  by (auto simp: part_of_def dest: arg_cong[where f=last] arg_cong[where f=length])

lemma progress_of_ok: "total_size \<noteq> Finite 0 \<Longrightarrow> \<exists>pr. progress_of x total_size = Inr pr"
  by (cases total_size) (auto simp: progress_of_def)

lemma stream_loop_zero:
  "chunks \<noteq> [] \<Longrightarrow>
     stream_loop fname filename ps hs (Finite 0) i chunks w = (Some ZeroDivisionError, w)"
  by (cases chunks) (auto simp: progress_of_def)

lemma stream_loop_ok:
  assumes "total_size \<noteq> Finite 0" and "fs w filename = Some (File b)"
  shows "\<exists>w'. stream_loop fname filename ps hs total_size i chunks w = (None, w')
           \<and> fs w' = (fs w)(filename \<mapsto> File (b @ concat chunks))"
  using assms
proof (induction chunks arbitrary: w b i)
  case Nil
  then show ?case by (auto simp: fun_upd_idem)
next
  case (Cons c cs)
  from progress_of_ok[OF Cons.prems(1)] obtain pr where
    pr: "progress_of (ps + i * length c) total_size = Inr pr" by blast
  let ?w1 = "print_stdout (Progress fname (ps + i * length c) hs pr)
              (print_stdout Blank (handler_write filename c w))"
  have f1: "fs ?w1 filename = Some (File (b @ c))"
    using Cons.prems(2) by (simp add: print_stdout_def handler_write_def)
  from Cons.IH[OF Cons.prems(1) f1, of "Suc i"] obtain w' where
    w': "stream_loop fname filename ps hs total_size (Suc i) cs ?w1 = (None, w')"
        "fs w' = (fs ?w1)(filename \<mapsto> File ((b @ c) @ concat cs))" by blast
  show ?case using w' pr Cons.prems(2)
    by (auto simp: print_stdout_def handler_write_def)
qed

text \<open>What the loop leaves in the marker: every chunk, or nothing when the declared
  size is zero and the first chunk stops the loop at the division of line 206.\<close>

lemma stream_loop_fs:
  assumes "fs w filename = Some (File b)"
  shows "fs (snd (stream_loop fname filename ps hs t i chunks w))
           = (fs w)(filename \<mapsto> File (b @ (if t = Finite 0 then [] else concat chunks)))"
proof (cases "t = Finite 0")
  case True
  show ?thesis
  proof (cases chunks)
    case Nil
    then show ?thesis using assms True by (simp add: fun_upd_idem)
  next
    case (Cons c cs)
    then have "chunks \<noteq> []" by simp
    from stream_loop_zero[OF this] show ?thesis using assms True by (simp add: fun_upd_idem)
  qed
next
  case False
  from stream_loop_ok[OF False assms] obtain w' where
    "stream_loop fname filename ps hs t i chunks w = (None, w')"
    "fs w' = (fs w)(filename \<mapsto> File (b @ concat chunks))" by blast
  then show ?thesis using False by simp
qed


text \<open>The state after the first \<open>j\<close> chunks of a body is the state the loop reaches
  on the body cut after \<open>j\<close> chunks: the loop over a longer body goes on from there.\<close>

lemma stream_loop_append:
  "stream_loop fname filename ps hs t i (xs @ ys) w =
     (case stream_loop fname filename ps hs t i xs w of
        (Some e, w1) \<Rightarrow> (Some e, w1)
      | (None, w1) \<Rightarrow> stream_loop fname filename ps hs t (i + length xs) ys w1)"
  by (induction xs arbitrary: w i) (auto split: sum.splits prod.splits option.splits)

lemma length_concat_take: "length (concat (take j xs)) \<le> length (concat xs)"
proof -
  have "concat xs = concat (take j xs) @ concat (drop j xs)"
    by (metis append_take_drop_id concat_append)
  then show ?thesis by simp
qed



lemma open_append_marker:
  assumes "fs w p = Some (File old)
             \<or> (fs w p = None \<and> old = [] \<and> fs w (butlast p) = Some Dir)"
  shows "\<exists>w1. open_append (send rq w) p = Inr w1 \<and> fs w1 = (fs w)(p \<mapsto> File old)"
  using assms by (auto simp: open_append_def send_def fun_upd_idem)

lemma part_size_of_marker:
  assumes "fs w p = Some (File old)
             \<or> (fs w p = None \<and> old = [] \<and> fs w (butlast p) = Some Dir)"
  shows "part_size_of w p = length old"
  using assms by (auto simp: part_size_of_def)

lemma try_block_streams:
  assumes marker: "fs w (part_of (fi_path fi)) = Some (File old)
             \<or> (fs w (part_of (fi_path fi)) = None \<and> old = []
                 \<and> fs w (butlast (part_of (fi_path fi))) = Some Dir)"
    and resp: "stream_get ev rq = Response r"
    and status: "\<not> status_abort (length old) (status_code r)"
    and size: "read_size r (length old) = Inr (Some s)" "s \<noteq> []" "py_float ev s = Some t"
  shows "\<exists>out w2. try_block ev fi rq (length old) chunk_size w = (out, Some s, w2)
           \<and> fs w2 = (fs w)(part_of (fi_path fi) \<mapsto>
                 File (old @ (if t = Finite 0 then [] else concat (iter_content r chunk_size))))"
proof -
  from open_append_marker[OF marker, of rq] obtain w1 where
    w1: "open_append (send rq w) (part_of (fi_path fi)) = Inr w1"
        "fs w1 = (fs w)(part_of (fi_path fi) \<mapsto> File old)" by blast
  have f1: "fs w1 (part_of (fi_path fi)) = Some (File old)" using w1(2) by simp
  obtain res w2 where
    l: "stream_loop (fi_filename fi) (part_of (fi_path fi)) (length old) s t 0
           (iter_content r chunk_size) w1 = (res, w2)"
    by (cases "stream_loop (fi_filename fi) (part_of (fi_path fi)) (length old) s t 0
           (iter_content r chunk_size) w1") auto
  from stream_loop_fs[OF f1, of "fi_filename fi" "length old" s t 0 "iter_content r chunk_size"] l
  have f2: "fs w2 = (fs w1)(part_of (fi_path fi) \<mapsto>
                 File (old @ (if t = Finite 0 then [] else concat (iter_content r chunk_size))))"
    by simp
  show ?thesis
    using resp status size w1 l f2
    by (cases res) (auto simp: try_block_def)
qed

lemma finally_block_fs:
  assumes "fs w (part_of (fi_path fi)) = Some (File b)"
    and "py_int ev s = Some n"
    and "fs w (fi_path fi) = None \<or> fs w (fi_path fi) = Some (File x)"
  shows "fs (snd (finally_block ev fi (Some s) out w))
           = (if int (length b) = n
              then (fs w)(fi_path fi \<mapsto> File b, part_of (fi_path fi) := None)
              else fs w)"
  using assms
  by (auto simp: finally_block_def path_getsize_def shutil_move_def os_rename_def print_stdout_def)

text \<open>The file system after a fetch that reached the body.\<close>

lemma downloadContent_fs:
  assumes target: "fs w (fi_path fi) = None \<or> fs w (fi_path fi) = Some (File [])"
    and marker: "fs w (part_of (fi_path fi)) = Some (File old)
             \<or> (fs w (part_of (fi_path fi)) = None \<and> old = []
                 \<and> fs w (butlast (part_of (fi_path fi))) = Some Dir)"
    and resp: "stream_get ev (download_request ev fi token w) = Response r"
    and status: "\<not> status_abort (length old) (status_code r)"
    and size: "read_size r (length old) = Inr (Some s)" "s \<noteq> []"
              "py_float ev s = Some t" "py_int ev s = Some n"
    and received: "received = (if t = Finite 0 then [] else concat (iter_content r chunk_size))"
  shows "fs (snd (downloadContent ev fi token chunk_size w))
           = (if int (length (old @ received)) = n
              then (fs w)(fi_path fi \<mapsto> File (old @ received), part_of (fi_path fi) := None)
              else (fs w)(part_of (fi_path fi) \<mapsto> File (old @ received)))"
proof -
  let ?P = "part_of (fi_path fi)"
  let ?rq = "download_request ev fi token w"
  have np: "\<not> already_present ev w (fi_path fi)"
    using target by (auto simp: already_present_def path_exists_def path_getsize_def)
  have ps: "part_size_of w ?P = length old" by (rule part_size_of_marker[OF marker])
  from try_block_streams[OF marker resp status size(1,2,3), of chunk_size] received
  obtain out w2 where
    tb: "try_block ev fi ?rq (length old) chunk_size w = (out, Some s, w2)"
    and f2: "fs w2 = (fs w)(?P \<mapsto> File (old @ received))" by auto
  have dc: "downloadContent ev fi token chunk_size w = finally_block ev fi (Some s) out w2"
    using np ps tb by (simp add: downloadContent_def)
  have m2: "fs w2 ?P = Some (File (old @ received))" using f2 by simp
  have t2: "fs w2 (fi_path fi) = None \<or> fs w2 (fi_path fi) = Some (File [])"
    using f2 target part_of_neq[of "fi_path fi"] by auto
  from finally_block_fs[OF m2 size(4) t2, of out] f2 dc part_of_neq[of "fi_path fi"]
  show ?thesis by (auto simp: fun_upd_twist)
qed













section \<open>Facts about the resolver\<close>

lemma add_dirs_Nil: "add_dirs [] f = f"
  by (simp add: add_dirs_def)

lemma add_dirs_append: "add_dirs ys (add_dirs xs f) = add_dirs (xs @ ys) f"
  by (auto simp: add_dirs_def)

lemma add_dirs_no_file: "(\<forall>b. f p \<noteq> Some (File b)) \<Longrightarrow> add_dirs ps f p \<noteq> Some (File b)"
  by (simp add: add_dirs_def)

lemma add_dirs_keeps_dir: "f p = Some Dir \<Longrightarrow> add_dirs ps f p = Some Dir"
  by (simp add: add_dirs_def)

lemma depth_le_foldr_max: "c \<in> set cs \<Longrightarrow> depth c \<le> foldr max (map depth cs) 0"
  by (induction cs) auto

lemma createDir_enters:
  assumes "fs w (cwd w) = Some Dir" and "\<forall>b. fs w (cwd w @ [name]) \<noteq> Some (File b)"
  shows "createDir name w = Inr (w\<lparr>fs := add_dirs [cwd w @ [name]] (fs w)\<rparr>)"
proof (cases "fs w (cwd w @ [name])")
  case None
  have "(fs w)(cwd w @ [name] \<mapsto> Dir) = add_dirs [cwd w @ [name]] (fs w)"
    by (auto simp: add_dirs_def)
  then show ?thesis using None assms(1)
    by (simp add: createDir_def os_mkdir_def path_join_def)
next
  case (Some e)
  then have e: "e = Dir" using assms(2) by (cases e) auto
  have "add_dirs [cwd w @ [name]] (fs w) = fs w"
    using Some e by (auto simp: add_dirs_def)
  then show ?thesis using Some
    by (simp add: createDir_def os_mkdir_def path_join_def)
qed

lemma os_chdir_enters:
  "fs w (cwd w @ [name]) = Some Dir \<Longrightarrow> os_chdir w name = Inr (w\<lparr>cwd := cwd w @ [name]\<rparr>)"
  by (simp add: os_chdir_def path_join_def)


lemma serves_children_Cons:
  assumes "serves_children ev token password data ids (c # cs)"
  shows "\<exists>i ids' ch. ids = i # ids' \<and> d_children data i = Some ch
           \<and> serves_children ev token password data ids' cs
           \<and> (case c of
                 FileNode name link \<Rightarrow>
                   c_type ch \<noteq> ''folder'' \<and> c_name ch = name \<and> c_link ch = link
               | FolderNode name sub \<Rightarrow>
                   c_type ch = ''folder'' \<and> serves ev token password (c_code ch) c)"
proof (cases ids)
  case Nil
  then show ?thesis using assms by simp
next
  case (Cons i ids')
  show ?thesis
  proof (cases "d_children data i")
    case None
    then show ?thesis using assms Cons by (cases c) simp_all
  next
    case (Some ch)
    then show ?thesis using assms Cons by (cases c) simp_all
  qed
qed

lemma children_loop_file_step:
  assumes "d_children data i = Some ch" and "c_type ch \<noteq> ''folder''"
  shows "children_loop k ev token password data (i # ids) w
           = children_loop k ev token password data ids
               (cacheLink (cwd w) (c_name ch) (c_link ch) w)"
  using assms by simp

lemma children_loop_folder_step:
  assumes "d_children data i = Some ch" and "c_type ch = ''folder''"
    and "parseLinks k ev (c_code ch) token password w = (Returned, w1)"
  shows "children_loop k ev token password data (i # ids) w
           = children_loop k ev token password data ids w1"
  using assms by simp

lemma resolved_file_step:
  assumes "resolved dir cs (cacheLink dir name link w) w'"
  shows "resolved dir (FileNode name link # cs) w w'"
  using assms by (simp add: resolved_def cacheLink_def path_join_def)

lemma resolved_folder_step:
  assumes "resolved dir [c] w w1" and "resolved dir cs w1 w'"
  shows "resolved dir (c # cs) w w'"
  using assms by (simp add: resolved_def add_dirs_append)

lemma children_loop_resolves:
  assumes IH: "\<And>c fuel content_id w. c \<in> set cs \<Longrightarrow> serves ev token password content_id c
            \<Longrightarrow> depth c \<le> fuel \<Longrightarrow> fs w (cwd w) = Some Dir
            \<Longrightarrow> \<forall>p\<in>set (folders_of (cwd w) c). \<forall>b. fs w p \<noteq> Some (File b)
            \<Longrightarrow> \<exists>w'. parseLinks fuel ev content_id token password w = (Returned, w')
                      \<and> resolved (cwd w) [c] w w'"
    and "serves_children ev token password data ids cs"
    and "\<forall>c\<in>set cs. depth c \<le> k"
    and "fs w (cwd w) = Some Dir"
    and "\<forall>p\<in>set (concat (map (folders_of (cwd w)) cs)). \<forall>b. fs w p \<noteq> Some (File b)"
  shows "\<exists>w'. children_loop k ev token password data ids w = (Returned, w')
           \<and> resolved (cwd w) cs w w'"
  using assms
proof (induction cs arbitrary: ids w)
  case Nil
  then have "ids = []" by (cases ids) simp_all
  then show ?case by (simp add: resolved_def add_dirs_Nil)
next
  case (Cons c cs)
  from serves_children_Cons[OF Cons.prems(2)] obtain i ids' ch where
    ids: "ids = i # ids'" and ch: "d_children data i = Some ch"
    and rest: "serves_children ev token password data ids' cs"
    and here: "(case c of
                 FileNode name link \<Rightarrow>
                   c_type ch \<noteq> ''folder'' \<and> c_name ch = name \<and> c_link ch = link
               | FolderNode name sub \<Rightarrow>
                   c_type ch = ''folder'' \<and> serves ev token password (c_code ch) c)"
    by blast
  have IH': "\<And>c fuel content_id w. c \<in> set cs \<Longrightarrow> serves ev token password content_id c
            \<Longrightarrow> depth c \<le> fuel \<Longrightarrow> fs w (cwd w) = Some Dir
            \<Longrightarrow> \<forall>p\<in>set (folders_of (cwd w) c). \<forall>b. fs w p \<noteq> Some (File b)
            \<Longrightarrow> \<exists>w'. parseLinks fuel ev content_id token password w = (Returned, w')
                      \<and> resolved (cwd w) [c] w w'"
  proof -
    fix c' fuel content_id w
    assume "c' \<in> set cs"
    then have "c' \<in> set (c # cs)" by simp
    then show "serves ev token password content_id c'
            \<Longrightarrow> depth c' \<le> fuel \<Longrightarrow> fs w (cwd w) = Some Dir
            \<Longrightarrow> \<forall>p\<in>set (folders_of (cwd w) c'). \<forall>b. fs w p \<noteq> Some (File b)
            \<Longrightarrow> \<exists>w'. parseLinks fuel ev content_id token password w = (Returned, w')
                      \<and> resolved (cwd w) [c'] w w'"
      by (rule Cons.prems(1))
  qed
  have dk: "\<forall>c\<in>set cs. depth c \<le> k" using Cons.prems(3) by simp
  show ?case
  proof (cases c)
    case (FileNode name link)
    then have f: "c_type ch \<noteq> ''folder''" "c_name ch = name" "c_link ch = link"
      using here by simp_all
    let ?w1 = "cacheLink (cwd w) name link w"
    have c1: "cwd ?w1 = cwd w" "fs ?w1 = fs w" by (simp_all add: cacheLink_def)
    have d1: "fs ?w1 (cwd ?w1) = Some Dir" using Cons.prems(4) c1 by simp
    have n1: "\<forall>p\<in>set (concat (map (folders_of (cwd ?w1)) cs)). \<forall>b. fs ?w1 p \<noteq> Some (File b)"
      using Cons.prems(5) c1 by simp
    from Cons.IH[OF IH' rest dk d1 n1]
    obtain w' where w': "children_loop k ev token password data ids' ?w1 = (Returned, w')"
      "resolved (cwd ?w1) cs ?w1 w'" by blast
    have r: "resolved (cwd w) (c # cs) w w'"
      using resolved_file_step[of "cwd w" cs name link w w'] w'(2) c1(1) FileNode by simp
    have "children_loop k ev token password data ids w = (Returned, w')"
      using children_loop_file_step[OF ch f(1), of k ev token password ids' w] w'(1) f ids
      by simp
    then show ?thesis using r by blast
  next
    case (FolderNode name sub)
    then have f: "c_type ch = ''folder''" "serves ev token password (c_code ch) c"
      using here by simp_all
    have cin: "c \<in> set (c # cs)" by simp
    have dc: "depth c \<le> k" using Cons.prems(3) by simp
    have nc: "\<forall>p\<in>set (folders_of (cwd w) c). \<forall>b. fs w p \<noteq> Some (File b)"
      using Cons.prems(5) by simp
    from Cons.prems(1)[OF cin f(2) dc Cons.prems(4) nc]
    obtain w1 where w1: "parseLinks k ev (c_code ch) token password w = (Returned, w1)"
      "resolved (cwd w) [c] w w1" by blast
    have c1: "cwd w1 = cwd w" "fs w1 = add_dirs (folders_of (cwd w) c) (fs w)"
      using w1(2) by (simp_all add: resolved_def)
    have d1: "fs w1 (cwd w1) = Some Dir"
      using c1 Cons.prems(4) by (simp add: add_dirs_keeps_dir)
    have n1: "\<forall>p\<in>set (concat (map (folders_of (cwd w1)) cs)). \<forall>b. fs w1 p \<noteq> Some (File b)"
    proof (intro ballI allI)
      fix p b
      assume "p \<in> set (concat (map (folders_of (cwd w1)) cs))"
      then have "p \<in> set (concat (map (folders_of (cwd w)) (c # cs)))" using c1(1) by simp
      then have "\<forall>b. fs w p \<noteq> Some (File b)" using Cons.prems(5) by blast
      then show "fs w1 p \<noteq> Some (File b)" using c1(2) by (simp add: add_dirs_def)
    qed
    from Cons.IH[OF IH' rest dk d1 n1]
    obtain w' where w': "children_loop k ev token password data ids' w1 = (Returned, w')"
      "resolved (cwd w1) cs w1 w'" by blast
    have r: "resolved (cwd w) (c # cs) w w'"
      using resolved_folder_step[OF w1(2)] w'(2) c1(1) by simp
    have "children_loop k ev token password data ids w = (Returned, w')"
      using children_loop_folder_step[OF ch f(1) w1(1), of ids'] w'(1) ids by simp
    then show ?thesis using r by blast
  qed
qed

lemma parseLinks_file:
  assumes "api_get ev (describe_request ev content_id token password) = Some r"
    and "a_status r = ''ok''" and "d_type (a_data r) \<noteq> ''folder''"
  shows "parseLinks (Suc k) ev content_id token password w
           = (Returned, cacheLink (cwd w) (d_name (a_data r)) (d_link (a_data r))
                          (send (describe_request ev content_id token password) w))"
  using assms by simp

lemma parseLinks_folder:
  assumes "api_get ev (describe_request ev content_id token password) = Some r"
    and "a_status r = ''ok''" and "d_type (a_data r) = ''folder''"
    and "createDir (d_name (a_data r)) (send (describe_request ev content_id token password) w)
           = Inr w1"
    and "os_chdir w1 (d_name (a_data r)) = Inr w2"
    and "children_loop k ev token password (a_data r) (d_childrenIds (a_data r)) w2
           = (Returned, w3)"
  shows "parseLinks (Suc k) ev content_id token password w = (Returned, os_chdir_pardir w3)"
  using assms by simp

lemma serves_file:
  assumes "serves ev token password content_id (FileNode name link)"
  shows "\<exists>r. api_get ev (describe_request ev content_id token password) = Some r
           \<and> a_status r = ''ok'' \<and> d_type (a_data r) \<noteq> ''folder''
           \<and> d_name (a_data r) = name \<and> d_link (a_data r) = link"
  using assms by (cases "api_get ev (describe_request ev content_id token password)") simp_all

lemma serves_folder:
  assumes "serves ev token password content_id (FolderNode name cs)"
  shows "\<exists>r. api_get ev (describe_request ev content_id token password) = Some r
           \<and> a_status r = ''ok'' \<and> d_type (a_data r) = ''folder''
           \<and> d_name (a_data r) = name
           \<and> serves_children ev token password (a_data r) (d_childrenIds (a_data r)) cs"
  using assms by (cases "api_get ev (describe_request ev content_id token password)") simp_all

lemma parseLinks_resolves:
  "serves ev token password content_id t \<Longrightarrow> depth t \<le> fuel \<Longrightarrow> fs w (cwd w) = Some Dir
     \<Longrightarrow> \<forall>p\<in>set (folders_of (cwd w) t). \<forall>b. fs w p \<noteq> Some (File b)
     \<Longrightarrow> \<exists>w'. parseLinks fuel ev content_id token password w = (Returned, w')
               \<and> resolved (cwd w) [t] w w'"
proof (induction t arbitrary: fuel content_id w)
  case (FileNode name link)
  from FileNode.prems(2) obtain k where k: "fuel = Suc k" by (cases fuel) simp_all
  from serves_file[OF FileNode.prems(1)] obtain r where
    r: "api_get ev (describe_request ev content_id token password) = Some r"
       "a_status r = ''ok''" "d_type (a_data r) \<noteq> ''folder''"
       "d_name (a_data r) = name" "d_link (a_data r) = link"
    by blast
  let ?w' = "cacheLink (cwd w) name link (send (describe_request ev content_id token password) w)"
  have p: "parseLinks fuel ev content_id token password w = (Returned, ?w')"
    using parseLinks_file[OF r(1,2,3), of k w] k r(4,5) by simp
  have "resolved (cwd w) [FileNode name link] w ?w'"
    by (simp add: resolved_def cacheLink_def send_def path_join_def add_dirs_Nil)
  then show ?case using p by blast
next
  case (FolderNode name cs)
  from FolderNode.prems(2) obtain k where k: "fuel = Suc k" by (cases fuel) simp_all
  from serves_folder[OF FolderNode.prems(1)] obtain r where
    r: "api_get ev (describe_request ev content_id token password) = Some r"
       "a_status r = ''ok''" "d_type (a_data r) = ''folder''"
       "d_name (a_data r) = name"
       "serves_children ev token password (a_data r) (d_childrenIds (a_data r)) cs"
    by blast
  let ?rq = "describe_request ev content_id token password"
  let ?p = "cwd w @ [name]"
  let ?w0 = "send ?rq w"
  let ?w1 = "?w0\<lparr>fs := add_dirs [?p] (fs ?w0)\<rparr>"
  let ?w2 = "?w1\<lparr>cwd := ?p\<rparr>"
  have w0: "cwd ?w0 = cwd w" "fs ?w0 = fs w" by (simp_all add: send_def)
  have pin: "?p \<in> set (folders_of (cwd w) (FolderNode name cs))" by simp
  have nf: "\<forall>b. fs ?w0 (cwd ?w0 @ [name]) \<noteq> Some (File b)"
    using FolderNode.prems(4) pin w0 by (simp del: folders_of.simps)
  have d0: "fs ?w0 (cwd ?w0) = Some Dir" using FolderNode.prems(3) w0 by simp
  have cd: "createDir name ?w0 = Inr ?w1"
    using createDir_enters[OF d0 nf] w0 by simp
  have "fs ?w1 (cwd ?w1 @ [name]) = Some Dir" using w0 by (simp add: add_dirs_def)
  from os_chdir_enters[OF this] have ch: "os_chdir ?w1 name = Inr ?w2" using w0 by simp
  have dk: "\<forall>c\<in>set cs. depth c \<le> k"
  proof
    fix c assume "c \<in> set cs"
    from depth_le_foldr_max[OF this] FolderNode.prems(2) k show "depth c \<le> k" by simp
  qed
  have d2: "fs ?w2 (cwd ?w2) = Some Dir" by (simp add: add_dirs_def)
  have n2: "\<forall>p\<in>set (concat (map (folders_of (cwd ?w2)) cs)). \<forall>b. fs ?w2 p \<noteq> Some (File b)"
  proof (intro ballI allI)
    fix p b
    assume "p \<in> set (concat (map (folders_of (cwd ?w2)) cs))"
    then have "p \<in> set (folders_of (cwd w) (FolderNode name cs))" by simp
    then have "\<forall>b. fs w p \<noteq> Some (File b)" using FolderNode.prems(4) by blast
    then show "fs ?w2 p \<noteq> Some (File b)" by (simp add: add_dirs_def send_def)
  qed
  from children_loop_resolves[OF FolderNode.IH r(5) dk d2 n2]
  obtain w3 where w3:
    "children_loop k ev token password (a_data r) (d_childrenIds (a_data r)) ?w2 = (Returned, w3)"
    "resolved (cwd ?w2) cs ?w2 w3" by blast
  have fl: "files_link_list (os_chdir_pardir w3)
              = files_link_list w @ concat (map (manifest_of (cwd w)) [FolderNode name cs])"
    using w3(2) by (simp add: resolved_def os_chdir_pardir_def send_def)
  have "add_dirs (concat (map (folders_of ?p) cs)) (add_dirs [?p] (fs w))
          = add_dirs (concat (map (folders_of (cwd w)) [FolderNode name cs])) (fs w)"
    by (simp add: add_dirs_append)
  then have ff: "fs (os_chdir_pardir w3)
              = add_dirs (concat (map (folders_of (cwd w)) [FolderNode name cs])) (fs w)"
    using w3(2) by (simp add: resolved_def os_chdir_pardir_def send_def)
  have oth: "cwd (os_chdir_pardir w3) = cwd w" "stdout (os_chdir_pardir w3) = stdout w"
    "stderr (os_chdir_pardir w3) = stderr w"
    using w3(2) by (simp_all add: resolved_def os_chdir_pardir_def send_def)
  have res: "resolved (cwd w) [FolderNode name cs] w (os_chdir_pardir w3)"
    unfolding resolved_def using fl ff oth by blast
  have "parseLinks fuel ev content_id token password w = (Returned, os_chdir_pardir w3)"
    using parseLinks_folder[OF r(1,2,3), of w ?w1 ?w2 k w3] cd ch w3(1) k r(4) by simp
  then show ?case using res by blast
qed

text \<open>Every request the resolver logs has a property that all describe-content
  requests of the run have.\<close>

lemma children_loop_requests:
  assumes IH: "\<And>content_id w. list_all P (net_log w)
                 \<Longrightarrow> list_all P (net_log (snd (parseLinks k ev content_id token password w)))"
  shows "list_all P (net_log w)
           \<Longrightarrow> list_all P (net_log (snd (children_loop k ev token password data ids w)))"
proof (induction ids arbitrary: w)
  case Nil
  then show ?case by simp
next
  case (Cons i ids)
  show ?case
  proof (cases "d_children data i")
    case None
    then show ?thesis using Cons.prems by simp
  next
    case (Some ch)
    show ?thesis
    proof (cases "c_type ch = ''folder''")
      case False
      have "list_all P (net_log (cacheLink (cwd w) (c_name ch) (c_link ch) w))"
        using Cons.prems by (simp add: cacheLink_def)
      from Cons.IH[OF this] show ?thesis using Some False by simp
    next
      case True
      obtain out w1 where p: "parseLinks k ev (c_code ch) token password w = (out, w1)"
        by (cases "parseLinks k ev (c_code ch) token password w") auto
      from IH[OF Cons.prems, of "c_code ch"] p have l1: "list_all P (net_log w1)" by simp
      show ?thesis
      proof (cases out)
        case Returned
        from Cons.IH[OF l1] show ?thesis using Some True p Returned by simp
      next
        case (Raised e)
        then show ?thesis using Some True p l1 by simp
      next
        case SystemExit
        then show ?thesis using Some True p l1 by simp
      next
        case OutOfFuel
        then show ?thesis using Some True p l1 by simp
      qed
    qed
  qed
qed

lemma parseLinks_requests:
  assumes "\<And>content_id. P (describe_request ev content_id token password)"
  shows "list_all P (net_log w)
           \<Longrightarrow> list_all P (net_log (snd (parseLinks fuel ev content_id token password w)))"
proof (induction fuel arbitrary: content_id w)
  case 0
  then show ?case by simp
next
  case (Suc k)
  let ?rq = "describe_request ev content_id token password"
  have l0: "list_all P (net_log (send ?rq w))"
    using Suc.prems assms[of content_id] by (simp add: send_def)
  show ?case
  proof (cases "api_get ev ?rq")
    case None
    then show ?thesis using l0 by simp
  next
    case (Some r)
    show ?thesis
    proof (cases "a_status r = ''ok''")
      case False
      then show ?thesis using Some l0 by (simp add: die_def)
    next
      case ok: True
      show ?thesis
      proof (cases "d_type (a_data r) = ''folder''")
        case False
        then show ?thesis using Some ok l0 by (simp add: cacheLink_def)
      next
        case True
        show ?thesis
        proof (cases "createDir (d_name (a_data r)) (send ?rq w)")
          case (Inl e)
          then show ?thesis using Some ok True l0 by simp
        next
          case w1: (Inr w1)
          have l1: "list_all P (net_log w1)"
            using w1 l0
            by (auto simp: createDir_def os_mkdir_def split: sum.splits option.splits
                  entry.splits if_splits)
          show ?thesis
          proof (cases "os_chdir w1 (d_name (a_data r))")
            case (Inl e)
            then show ?thesis using Some ok True w1 l1 by simp
          next
            case w2: (Inr w2)
            have l2: "list_all P (net_log w2)"
              using w2 l1 by (auto simp: os_chdir_def split: option.splits entry.splits)
            obtain out w3 where
              c: "children_loop k ev token password (a_data r) (d_childrenIds (a_data r)) w2
                    = (out, w3)"
              by (cases "children_loop k ev token password (a_data r)
                           (d_childrenIds (a_data r)) w2") auto
            from children_loop_requests[of P k ev token password, OF Suc.IH l2,
                   of "a_data r" "d_childrenIds (a_data r)"] c
            have l3: "list_all P (net_log w3)" by simp
            show ?thesis using Some ok True w1 w2 c l3
              by (cases out) (simp_all add: os_chdir_pardir_def)
          qed
        qed
      qed
    qed
  qed
qed

section \<open>The skip of a file that is already there\<close>

text \<open>
  C3. When the final target path exists with a size greater than 0, the fetcher returns
  having written one line, the "already exist, skipping" report, and nothing else
  changes: no request is sent and the file system is the one it found.
\<close>

theorem skip_existing_target:
  assumes "path_exists w (fi_path file_info)"
    and "path_getsize ev w (fi_path file_info) = Inr n"
    and "0 < n"
  shows "downloadContent ev file_info token chunk_size w
           = (Returned, w\<lparr>stdout := stdout w @ [Skipping (fi_filename file_info)]\<rparr>)"
  using assms by (simp add: downloadContent_def already_present_def print_stdout_def)

theorem skip_existing_target_witness:
  "path_exists (demo_world fs_finished) (fi_path demo_file)
   \<and> path_getsize (demo_env no_api ConnectionFailed) (demo_world fs_finished)
        (fi_path demo_file) = Inr 5
   \<and> downloadContent (demo_env no_api ConnectionFailed) demo_file ''tok'' 16384
        (demo_world fs_finished)
      = (Returned,
         (demo_world fs_finished)\<lparr>stdout := stdout (demo_world fs_finished)
            @ [Skipping (fi_filename demo_file)]\<rparr>)"
proof -
  have e: "path_exists (demo_world fs_finished) (fi_path demo_file)"
    by (simp add: path_exists_def demo_world_def fs_finished_def demo_file_def)
  have g: "path_getsize (demo_env no_api ConnectionFailed) (demo_world fs_finished)
             (fi_path demo_file) = Inr 5"
    by (simp add: path_getsize_def demo_world_def fs_finished_def demo_file_def)
  have p: "(0::nat) < 5" by simp
  show ?thesis
    by (intro conjI) (rule e, rule g, rule skip_existing_target[OF e g p])
qed

section \<open>The finalize step\<close>

text \<open>
  C2. Take a fetch that reached the body: the target is absent or empty, the marker is
  absent or a regular file holding \<open>old\<close>, the answer passed the status check and
  declares the size \<open>n\<close>. However the stream ended (\<open>stream_fails\<close> is free),
  the marker then holds \<open>old\<close> followed by the bytes received, and it is renamed to
  the target path if and only if its length is exactly \<open>n\<close>; when the lengths differ
  the marker stays and the target path is as it was.
\<close>

theorem marker_renamed_iff_complete:
  assumes target: "fs w (fi_path fi) = None \<or> fs w (fi_path fi) = Some (File [])"
    and marker: "fs w (part_of (fi_path fi)) = Some (File old)
             \<or> (fs w (part_of (fi_path fi)) = None \<and> old = []
                 \<and> fs w (butlast (part_of (fi_path fi))) = Some Dir)"
    and resp: "stream_get ev (download_request ev fi token w) = Response r"
    and status: "\<not> status_abort (length old) (status_code r)"
    and size: "read_size r (length old) = Inr (Some s)" "s \<noteq> []"
              "py_float ev s = Some t" "py_int ev s = Some n"
    and received: "received = (if t = Finite 0 then [] else concat (iter_content r chunk_size))"
  shows "((fs (snd (downloadContent ev fi token chunk_size w)) (part_of (fi_path fi)) = None
           \<and> fs (snd (downloadContent ev fi token chunk_size w)) (fi_path fi)
               = Some (File (old @ received)))
          \<longleftrightarrow> int (length (old @ received)) = n)
       \<and> (int (length (old @ received)) = n \<longrightarrow>
            fs (snd (downloadContent ev fi token chunk_size w))
              = (fs w)(fi_path fi \<mapsto> File (old @ received), part_of (fi_path fi) := None))
       \<and> (int (length (old @ received)) \<noteq> n \<longrightarrow>
            fs (snd (downloadContent ev fi token chunk_size w))
              = (fs w)(part_of (fi_path fi) \<mapsto> File (old @ received)))"
proof -
  note f = downloadContent_fs[OF target marker resp status size received]
  show ?thesis
  proof (cases "int (length (old @ received)) = n")
    case True
    then show ?thesis using f part_of_neq[of "fi_path fi"] by simp
  next
    case False
    then show ?thesis using f by simp
  qed
qed

theorem marker_renamed_iff_complete_witness:
  "fs (snd (downloadContent complete_env demo_file ''tok'' 16384 (demo_world fs_fresh)))
     = fs_fresh([''dl'', ''b.txt''] \<mapsto> File ''abcd'', [''dl'', ''b.txt.part''] := None)
   \<and> fs (snd (downloadContent oversized_env demo_file ''tok'' 16384 (demo_world fs_fresh)))
     = fs_fresh([''dl'', ''b.txt.part''] \<mapsto> File ''abcd'')"
proof -
  let ?r4 = "\<lparr>status_code = 200, resp_headers = [''Content-Length'' \<mapsto> ''4''],
              iter_content = (\<lambda>n. [''abc'', ''d'']), stream_fails = False\<rparr>"
  let ?r3 = "\<lparr>status_code = 200, resp_headers = [''Content-Length'' \<mapsto> ''3''],
              iter_content = (\<lambda>n. [''abcd'']), stream_fails = False\<rparr>"
  let ?w = "demo_world fs_fresh"
  have target: "fs ?w (fi_path demo_file) = None \<or> fs ?w (fi_path demo_file) = Some (File [])"
    by (simp add: run_defs)
  have marker: "fs ?w (part_of (fi_path demo_file)) = Some (File [])
      \<or> (fs ?w (part_of (fi_path demo_file)) = None \<and> ([]::bytes) = []
          \<and> fs ?w (butlast (part_of (fi_path demo_file))) = Some Dir)"
    by (simp add: run_defs)
  have status: "\<not> status_abort (length ([]::bytes)) (status_code ?r4)"
               "\<not> status_abort (length ([]::bytes)) (status_code ?r3)"
    by (simp_all add: status_abort_def)
  have r4: "stream_get complete_env (download_request complete_env demo_file ''tok'' ?w)
              = Response ?r4"
    by (simp add: complete_env_def demo_env_def demo_response_def)
  have r3: "stream_get oversized_env (download_request oversized_env demo_file ''tok'' ?w)
              = Response ?r3"
    by (simp add: oversized_env_def demo_env_def demo_response_def)
  have s4: "read_size ?r4 (length ([]::bytes)) = Inr (Some ''4'')" "''4'' \<noteq> []"
           "py_float complete_env ''4'' = Some (Finite 4)" "py_int complete_env ''4'' = Some 4"
    by (simp_all add: read_size_def complete_env_def demo_env_def dec_nat_def digit_val_def)
  have s3: "read_size ?r3 (length ([]::bytes)) = Inr (Some ''3'')" "''3'' \<noteq> []"
           "py_float oversized_env ''3'' = Some (Finite 3)" "py_int oversized_env ''3'' = Some 3"
    by (simp_all add: read_size_def oversized_env_def demo_env_def dec_nat_def digit_val_def)
  have rc4: "''abcd'' = (if Finite 4 = Finite 0 then [] else concat (iter_content ?r4 16384))"
    by simp
  have rc3: "''abcd'' = (if Finite 3 = Finite 0 then [] else concat (iter_content ?r3 16384))"
    by simp
  from marker_renamed_iff_complete[OF target marker r4 status(1) s4 rc4]
  have a: "fs (snd (downloadContent complete_env demo_file ''tok'' 16384 ?w))
     = fs_fresh([''dl'', ''b.txt''] \<mapsto> File ''abcd'', [''dl'', ''b.txt.part''] := None)"
    by (simp add: demo_world_def demo_file_def part_of_def)
  from marker_renamed_iff_complete[OF target marker r3 status(2) s3 rc3]
  have b: "fs (snd (downloadContent oversized_env demo_file ''tok'' 16384 ?w))
     = fs_fresh([''dl'', ''b.txt.part''] \<mapsto> File ''abcd'')"
    by (simp add: demo_world_def demo_file_def part_of_def)
  show ?thesis by (rule conjI[OF a b])
qed

section \<open>The status check\<close>




section \<open>The resume offset and the range header\<close>

text \<open>
  C5, evaluated where the program departs from it. An empty marker is on disk (an
  earlier run opened it and received nothing). The resume offset is 0, and still the
  request carries \<open>Range: bytes=0-\<close>. The server honours the range with status 206,
  which the status check of an offset of 0 refuses: the file is reported as failed.
\<close>

theorem empty_marker_sends_range:
  "part_size_of (demo_world fs_empty_marker) (part_of (fi_path demo_file)) = 0
   \<and> map (\<lambda>rq. map_of (rq_headers rq) ''Range'')
        (net_log (snd (downloadContent honoured_range_env demo_file ''tok'' 16384
                        (demo_world fs_empty_marker))))
       = [Some ''bytes=0-'']
   \<and> stdout (snd (downloadContent honoured_range_env demo_file ''tok'' 16384
                   (demo_world fs_empty_marker)))
       = [CouldntDownload ''https://store1.gofile.io/download/b.txt'' 206]"
  by (simp add: run_defs honoured_range_env_def)

section \<open>The progress lines\<close>

text \<open>
  C6, evaluated where the program departs from it. A fresh download of four bytes
  arrives as the chunks \<open>abc\<close> and \<open>d\<close>. After the first chunk the line reports 0
  bytes and 0 percent, after the second 1 byte and 25 percent: the figure of line 206
  is the offset plus the index of the chunk times the length of that chunk. The marker
  holds 3 and then 4 bytes, as the closing line shows.
\<close>

theorem progress_lines_of_two_chunks:
  "stdout (snd (downloadContent complete_env demo_file ''tok'' 16384 (demo_world fs_fresh)))
     = [Blank, Progress ''b.txt'' 0 ''4'' (Finite 0),
        Blank, Progress ''b.txt'' 1 ''4'' (Finite 25),
        Blank, Done ''b.txt'' 4 ''4'']"
  by (simp add: run_defs complete_env_def)

section \<open>The declared size\<close>

text \<open>
  C7, evaluated where the program departs from it. A marker of five bytes is on disk
  and the server answers 206 without a \<open>Content-Range\<close> header. Line 189 calls
  \<open>split\<close> on \<open>None\<close>; the \<open>finally\<close> then raises \<open>TypeError\<close> on
  \<open>int(None)\<close>. The fetch ends there with nothing written to standard output: the
  report of line 192 is never reached.
\<close>

theorem missing_content_range_unreported:
  "downloadContent no_content_range_env demo_file ''tok'' 16384 (demo_world fs_marker5)
     = (Raised TypeError,
        (demo_world fs_marker5)
          \<lparr>net_log := [download_request no_content_range_env demo_file ''tok''
                         (demo_world fs_marker5)]\<rparr>)
   \<and> stdout (snd (downloadContent no_content_range_env demo_file ''tok'' 16384
                   (demo_world fs_marker5))) = []
   \<and> read_size \<lparr>status_code = 206, resp_headers = Map.empty,
                 iter_content = (\<lambda>n. [''world'']), stream_fails = False\<rparr> 5
       = Inl AttributeError"
  by (simp add: run_defs no_content_range_env_def)

section \<open>The length of the marker\<close>

text \<open>
  C8 as stated fails: the program appends every chunk it receives and never compares
  the marker with the declared size while it streams. Here the server declares three
  bytes and delivers four (a body delivered decoded is longer than the length declared
  for its encoded form); the marker ends with four bytes and stays.
\<close>

theorem marker_exceeds_declared_size:
  "marker_size (snd (downloadContent oversized_env demo_file ''tok'' 16384
                      (demo_world fs_fresh))) (part_of (fi_path demo_file)) = Some 4
   \<and> read_size \<lparr>status_code = 200, resp_headers = [''Content-Length'' \<mapsto> ''3''],
                 iter_content = (\<lambda>n. [''abcd'']), stream_fails = False\<rparr> 0 = Inr (Some ''3'')
   \<and> py_int oversized_env ''3'' = Some 3"
  by (simp add: run_defs oversized_env_def)

text \<open>
  C8 as amended. Take a fetch that reached the body, and let the resume offset plus the
  length of the whole body be at most the declared size \<open>n\<close>. Then after each chunk
  (the loop run on the first \<open>j\<close> chunks, from the world \<open>w1\<close> in which the marker
  was opened) the marker is a regular file of at most \<open>n\<close> bytes, and after the fetch
  a marker that is still there has at most \<open>n\<close> bytes.
\<close>

theorem marker_bounded_when_body_fits:
  assumes target: "fs w (fi_path fi) = None \<or> fs w (fi_path fi) = Some (File [])"
    and marker: "fs w (part_of (fi_path fi)) = Some (File old)
             \<or> (fs w (part_of (fi_path fi)) = None \<and> old = []
                 \<and> fs w (butlast (part_of (fi_path fi))) = Some Dir)"
    and resp: "stream_get ev (download_request ev fi token w) = Response r"
    and status: "\<not> status_abort (length old) (status_code r)"
    and size: "read_size r (length old) = Inr (Some s)" "s \<noteq> []"
              "py_float ev s = Some t" "py_int ev s = Some n"
    and opened: "open_append (send (download_request ev fi token w) w) (part_of (fi_path fi))
                   = Inr w1"
    and fits: "int (length old) + int (length (concat (iter_content r chunk_size))) \<le> n"
  shows "(\<forall>j. \<exists>m. marker_size
                    (snd (stream_loop (fi_filename fi) (part_of (fi_path fi)) (length old) s t 0
                           (take j (iter_content r chunk_size)) w1))
                    (part_of (fi_path fi)) = Some m \<and> int m \<le> n)
       \<and> (\<forall>m. marker_size (snd (downloadContent ev fi token chunk_size w))
                 (part_of (fi_path fi)) = Some m \<longrightarrow> int m \<le> n)"
proof (intro conjI allI impI)
  fix j
  let ?P = "part_of (fi_path fi)"
  from open_append_marker[OF marker, of "download_request ev fi token w"] opened
  have f1: "fs w1 ?P = Some (File old)" by auto
  let ?got = "if t = Finite 0 then [] else concat (take j (iter_content r chunk_size))"
  from stream_loop_fs[OF f1, of "fi_filename fi" "length old" s t 0
         "take j (iter_content r chunk_size)"]
  have m: "marker_size (snd (stream_loop (fi_filename fi) ?P (length old) s t 0
                           (take j (iter_content r chunk_size)) w1)) ?P
             = Some (length (old @ ?got))"
    by (simp add: marker_size_def)
  have "length ?got \<le> length (concat (iter_content r chunk_size))"
    using length_concat_take[of j "iter_content r chunk_size"] by simp
  then have "int (length (old @ ?got)) \<le> n" using fits by simp
  then show "\<exists>m. marker_size (snd (stream_loop (fi_filename fi) ?P (length old) s t 0
                           (take j (iter_content r chunk_size)) w1)) ?P = Some m \<and> int m \<le> n"
    using m by blast
next
  fix m
  let ?P = "part_of (fi_path fi)"
  let ?rec = "if t = Finite 0 then [] else concat (iter_content r chunk_size)"
  assume a: "marker_size (snd (downloadContent ev fi token chunk_size w)) ?P = Some m"
  have b: "int (length (old @ ?rec)) \<le> n" using fits by simp
  from downloadContent_fs[OF target marker resp status size refl, of chunk_size]
  have "fs (snd (downloadContent ev fi token chunk_size w))
           = (if int (length (old @ ?rec)) = n
              then (fs w)(fi_path fi \<mapsto> File (old @ ?rec), ?P := None)
              else (fs w)(?P \<mapsto> File (old @ ?rec)))" .
  then show "int m \<le> n" using a b by (auto simp: marker_size_def split: if_splits)
qed

theorem marker_bounded_when_body_fits_witness:
  "(\<exists>m. marker_size
           (snd (stream_loop ''b.txt'' [''dl'', ''b.txt.part''] 0 ''4'' (Finite 4) 0
                  (take 1 [''abc'', ''d''])
                  ((demo_world fs_fresh)
                     \<lparr>fs := fs_fresh([''dl'', ''b.txt.part''] \<mapsto> File []),
                      net_log := [download_request complete_env demo_file ''tok''
                                    (demo_world fs_fresh)]\<rparr>)))
           [''dl'', ''b.txt.part''] = Some m \<and> int m \<le> 4)
   \<and> int (length ([]::bytes)) + int (length (concat [''abc'', ''d''])) \<le> 4"
proof -
  let ?r4 = "\<lparr>status_code = 200, resp_headers = [''Content-Length'' \<mapsto> ''4''],
              iter_content = (\<lambda>n. [''abc'', ''d'']), stream_fails = False\<rparr>"
  let ?w = "demo_world fs_fresh"
  let ?w1 = "?w\<lparr>fs := fs_fresh([''dl'', ''b.txt.part''] \<mapsto> File []),
                 net_log := [download_request complete_env demo_file ''tok'' ?w]\<rparr>"
  have target: "fs ?w (fi_path demo_file) = None \<or> fs ?w (fi_path demo_file) = Some (File [])"
    by (simp add: run_defs)
  have marker: "fs ?w (part_of (fi_path demo_file)) = Some (File [])
      \<or> (fs ?w (part_of (fi_path demo_file)) = None \<and> ([]::bytes) = []
          \<and> fs ?w (butlast (part_of (fi_path demo_file))) = Some Dir)"
    by (simp add: run_defs)
  have status: "\<not> status_abort (length ([]::bytes)) (status_code ?r4)"
    by (simp add: status_abort_def)
  have r4: "stream_get complete_env (download_request complete_env demo_file ''tok'' ?w)
              = Response ?r4"
    by (simp add: complete_env_def demo_env_def demo_response_def)
  have s4: "read_size ?r4 (length ([]::bytes)) = Inr (Some ''4'')" "''4'' \<noteq> []"
           "py_float complete_env ''4'' = Some (Finite 4)" "py_int complete_env ''4'' = Some 4"
    by (simp_all add: read_size_def complete_env_def demo_env_def dec_nat_def digit_val_def)
  have opened: "open_append (send (download_request complete_env demo_file ''tok'' ?w) ?w)
                  (part_of (fi_path demo_file)) = Inr ?w1"
    by (simp add: open_append_def send_def demo_world_def demo_file_def part_of_def fs_fresh_def)
  have fits: "int (length ([]::bytes)) + int (length (concat (iter_content ?r4 16384))) \<le> 4"
    by simp
  from marker_bounded_when_body_fits[OF target marker r4 status s4 opened fits]
  have "\<exists>m. marker_size
           (snd (stream_loop (fi_filename demo_file) (part_of (fi_path demo_file))
                  (length ([]::bytes)) ''4'' (Finite 4) 0
                  (take 1 (iter_content ?r4 16384)) ?w1))
           (part_of (fi_path demo_file)) = Some m \<and> int m \<le> 4"
    by blast
  then have a: "\<exists>m. marker_size
           (snd (stream_loop ''b.txt'' [''dl'', ''b.txt.part''] 0 ''4'' (Finite 4) 0
                  (take 1 [''abc'', ''d'']) ?w1))
           [''dl'', ''b.txt.part''] = Some m \<and> int m \<le> 4"
    by (simp add: demo_file_def part_of_def)
  have b: "int (length ([]::bytes)) + int (length (concat [''abc'', ''d''])) \<le> 4" by simp
  show ?thesis by (rule conjI[OF a b])
qed

section \<open>The manifest and the mirrored directories\<close>

text \<open>
  C1. Let the service hold the tree \<open>t\<close> under the content id, with plain names.
  Let the working directory be a directory and let no regular file stand where a folder
  of \<open>t\<close> is to be mirrored. Then with fuel for the depth of \<open>t\<close> the resolver
  returns; the manifest has grown by the files of \<open>t\<close> in depth-first pre-order,
  siblings in the order of the remote listing; the directories of the file system are
  those it had together with the folders of \<open>t\<close>, each under the directory of its
  parent; and the working directory is the one it started in.
\<close>

theorem manifest_is_preorder_traversal:
  assumes "serves ev token password content_id t"
    and "plain_names t"
    and "depth t \<le> fuel"
    and "fs w (cwd w) = Some Dir"
    and "\<forall>p\<in>set (folders_of (cwd w) t). \<forall>b. fs w p \<noteq> Some (File b)"
  shows "\<exists>w'. parseLinks fuel ev content_id token password w = (Returned, w')
           \<and> files_link_list w' = files_link_list w @ manifest_of (cwd w) t
           \<and> fs w' = add_dirs (folders_of (cwd w) t) (fs w)
           \<and> {p. fs w' p = Some Dir} = {p. fs w p = Some Dir} \<union> set (folders_of (cwd w) t)
           \<and> cwd w' = cwd w"
proof -
  from parseLinks_resolves[OF assms(1,3,4,5)] obtain w' where
    w': "parseLinks fuel ev content_id token password w = (Returned, w')"
        "resolved (cwd w) [t] w w'" by blast
  have f: "fs w' = add_dirs (folders_of (cwd w) t) (fs w)"
    using w'(2) by (simp add: resolved_def)
  have "{p. fs w' p = Some Dir} = {p. fs w p = Some Dir} \<union> set (folders_of (cwd w) t)"
    unfolding f by (auto simp: add_dirs_def)
  then show ?thesis using w' f by (auto simp: resolved_def)
qed

theorem manifest_is_preorder_traversal_witness:
  "\<exists>w'. parseLinks 3 (resolver_env None) ''root'' ''tok'' None (demo_world fs_fresh)
           = (Returned, w')
      \<and> files_link_list w' =
          [\<lparr>fi_path = [''dl'', ''root'', ''a.txt''], fi_filename = ''a.txt'',
            fi_link = ''https://store1.gofile.io/download/a.txt''\<rparr>,
           \<lparr>fi_path = [''dl'', ''root'', ''sub'', ''b.txt''], fi_filename = ''b.txt'',
            fi_link = ''https://store1.gofile.io/download/b.txt''\<rparr>]
      \<and> fs w' = add_dirs [[''dl'', ''root''], [''dl'', ''root'', ''sub'']] fs_fresh
      \<and> cwd w' = [''dl'']"
proof -
  let ?w = "demo_world fs_fresh"
  have s: "serves (resolver_env None) ''tok'' None ''root'' demo_tree"
    by (simp add: resolver_env_def demo_env_def demo_api_def demo_tree_def describe_request_def
          contents_url_def)
  have pn: "plain_names demo_tree" by (simp add: demo_tree_def plain_name_def)
  have d: "depth demo_tree \<le> 3" by (simp add: demo_tree_def)
  have c: "fs ?w (cwd ?w) = Some Dir" by (simp add: demo_world_def fs_fresh_def)
  have n: "\<forall>p\<in>set (folders_of (cwd ?w) demo_tree). \<forall>b. fs ?w p \<noteq> Some (File b)"
    by (simp add: demo_world_def fs_fresh_def demo_tree_def)
  from manifest_is_preorder_traversal[OF s pn d c n] obtain w' where
    w': "parseLinks 3 (resolver_env None) ''root'' ''tok'' None ?w = (Returned, w')"
        "files_link_list w' = files_link_list ?w @ manifest_of (cwd ?w) demo_tree"
        "fs w' = add_dirs (folders_of (cwd ?w) demo_tree) (fs ?w)"
        "cwd w' = cwd ?w" by blast
  have a: "files_link_list w' =
          [\<lparr>fi_path = [''dl'', ''root'', ''a.txt''], fi_filename = ''a.txt'',
            fi_link = ''https://store1.gofile.io/download/a.txt''\<rparr>,
           \<lparr>fi_path = [''dl'', ''root'', ''sub'', ''b.txt''], fi_filename = ''b.txt'',
            fi_link = ''https://store1.gofile.io/download/b.txt''\<rparr>]"
    using w'(2) by (simp add: demo_world_def demo_tree_def)
  have b: "fs w' = add_dirs [[''dl'', ''root''], [''dl'', ''root'', ''sub'']] fs_fresh"
    using w'(3) by (simp add: demo_world_def demo_tree_def)
  have e: "cwd w' = [''dl'']" using w'(4) by (simp add: demo_world_def)
  show ?thesis using w'(1) a b e by blast
qed


section \<open>The password\<close>

text \<open>
  C10. A run made with a non-empty password \<open>p\<close> keeps its SHA-256 hex digest
  (line 63), and every describe-content request of the resolver has the URL of the
  content with \<open>&password=\<close> and that digest at its end, under headers that hold
  the user agent and the token only. The requests are a function of the digest: two
  passwords with the same digest give the same run, so the password itself is no part
  of any request. A run made without a password, or with the empty one, sends the URL
  without a password parameter.
\<close>

theorem password_sent_as_digest:
  assumes "p \<noteq> []" and "sha256_hexdigest ev p \<noteq> []" and "net_log w = []"
  shows "list_all
           (\<lambda>rq. rq_headers rq = api_headers ev token
              \<and> (\<exists>i. rq_url rq = ''https://api.gofile.io/contents/'' @ i
                     @ ''?wt=4fd6sg89d7s6&cache=true'' @ ''&password='' @ sha256_hexdigest ev p))
           (net_log (snd (parseLinks fuel ev content_id token (hash_password ev (Some p)) w)))
       \<and> (\<forall>q. q \<noteq> [] \<and> sha256_hexdigest ev q = sha256_hexdigest ev p \<longrightarrow>
              parseLinks fuel ev content_id token (hash_password ev (Some q)) w
                = parseLinks fuel ev content_id token (hash_password ev (Some p)) w)
       \<and> list_all
           (\<lambda>rq. rq_headers rq = api_headers ev token
              \<and> (\<exists>i. rq_url rq = ''https://api.gofile.io/contents/'' @ i
                     @ ''?wt=4fd6sg89d7s6&cache=true''))
           (net_log (snd (parseLinks fuel ev content_id token (hash_password ev None) w)))
       \<and> list_all
           (\<lambda>rq. rq_headers rq = api_headers ev token
              \<and> (\<exists>i. rq_url rq = ''https://api.gofile.io/contents/'' @ i
                     @ ''?wt=4fd6sg89d7s6&cache=true''))
           (net_log (snd (parseLinks fuel ev content_id token (hash_password ev (Some [])) w)))"
proof (intro conjI allI impI)
  let ?P = "\<lambda>rq. rq_headers rq = api_headers ev token
              \<and> (\<exists>i. rq_url rq = ''https://api.gofile.io/contents/'' @ i
                     @ ''?wt=4fd6sg89d7s6&cache=true'' @ ''&password='' @ sha256_hexdigest ev p)"
  have h: "hash_password ev (Some p) = Some (sha256_hexdigest ev p)"
    using assms(1) by (simp add: hash_password_def)
  have "\<And>i. ?P (describe_request ev i token (Some (sha256_hexdigest ev p)))"
    using assms(2) by (simp add: describe_request_def contents_url_def)
  from parseLinks_requests[of ?P ev token "Some (sha256_hexdigest ev p)" w fuel content_id, OF this]
  show "list_all ?P
          (net_log (snd (parseLinks fuel ev content_id token (hash_password ev (Some p)) w)))"
    using assms(3) h by simp
next
  fix q
  assume "q \<noteq> [] \<and> sha256_hexdigest ev q = sha256_hexdigest ev p"
  then have "hash_password ev (Some q) = hash_password ev (Some p)"
    using assms(1) by (simp add: hash_password_def)
  then show "parseLinks fuel ev content_id token (hash_password ev (Some q)) w
                = parseLinks fuel ev content_id token (hash_password ev (Some p)) w"
    by simp
next
  let ?Q = "\<lambda>rq. rq_headers rq = api_headers ev token
              \<and> (\<exists>i. rq_url rq = ''https://api.gofile.io/contents/'' @ i
                     @ ''?wt=4fd6sg89d7s6&cache=true'')"
  have "\<And>i. ?Q (describe_request ev i token None)"
    by (simp add: describe_request_def contents_url_def)
  from parseLinks_requests[of ?Q ev token None w fuel content_id, OF this]
  show "list_all ?Q
          (net_log (snd (parseLinks fuel ev content_id token (hash_password ev None) w)))"
    using assms(3) by (simp add: hash_password_def)
next
  let ?Q = "\<lambda>rq. rq_headers rq = api_headers ev token
              \<and> (\<exists>i. rq_url rq = ''https://api.gofile.io/contents/'' @ i
                     @ ''?wt=4fd6sg89d7s6&cache=true'')"
  have "\<And>i. ?Q (describe_request ev i token None)"
    by (simp add: describe_request_def contents_url_def)
  from parseLinks_requests[of ?Q ev token None w fuel content_id, OF this]
  show "list_all ?Q
          (net_log (snd (parseLinks fuel ev content_id token (hash_password ev (Some [])) w)))"
    using assms(3) by (simp add: hash_password_def)
qed

theorem password_sent_as_digest_witness:
  "list_all
     (\<lambda>rq. rq_headers rq = api_headers password_env ''tok''
        \<and> (\<exists>i. rq_url rq = ''https://api.gofile.io/contents/'' @ i
               @ ''?wt=4fd6sg89d7s6&cache=true'' @ ''&password=''
               @ ''5e884898da28047151d0e56f8dc6292773603d0d6aabbdd62a11ef721d1542d8''))
     (net_log (snd (parseLinks 3 password_env ''root'' ''tok''
                      (hash_password password_env (Some ''password'')) (demo_world fs_fresh))))
   \<and> length (net_log (snd (parseLinks 3 password_env ''root'' ''tok''
                      (hash_password password_env (Some ''password'')) (demo_world fs_fresh))))
       = 2"
proof -
  have d: "sha256_hexdigest password_env ''password''
             = ''5e884898da28047151d0e56f8dc6292773603d0d6aabbdd62a11ef721d1542d8''"
    by (simp add: password_env_def resolver_env_def demo_env_def)
  have h1: "''password'' \<noteq> []" by simp
  have h2: "sha256_hexdigest password_env ''password'' \<noteq> []" by (simp add: d)
  have h3: "net_log (demo_world fs_fresh) = []" by (simp add: demo_world_def)
  note t = password_sent_as_digest[OF h1 h2 h3, of "''tok''" 3 "''root''"]
  have a: "list_all
     (\<lambda>rq. rq_headers rq = api_headers password_env ''tok''
        \<and> (\<exists>i. rq_url rq = ''https://api.gofile.io/contents/'' @ i
               @ ''?wt=4fd6sg89d7s6&cache=true'' @ ''&password=''
               @ ''5e884898da28047151d0e56f8dc6292773603d0d6aabbdd62a11ef721d1542d8''))
     (net_log (snd (parseLinks 3 password_env ''root'' ''tok''
                      (hash_password password_env (Some ''password'')) (demo_world fs_fresh))))"
    using conjunct1[OF t] unfolding d .
  have b: "length (net_log (snd (parseLinks 3 password_env ''root'' ''tok''
                      (hash_password password_env (Some ''password'')) (demo_world fs_fresh))))
       = 2"
    by code_simp
  show ?thesis by (rule conjI[OF a b])
qed

end
